theory Spec2Isabelle
  imports Complex_Main
begin

section \<open>Thermal network solver: data model\<close>

text \<open>
  The solver of \<^verbatim>\<open>simulation.ts\<close> works on JavaScript numbers. A number is
  modelled as either a finite value or one of the three non-finite values that
  \<^verbatim>\<open>Number.isFinite\<close> rejects. Finite values are real numbers: arithmetic on
  them is exact, so floating-point rounding and overflow are outside this model.
\<close>

datatype number = Finite real | PosInfinity | NegInfinity | NaN

fun isFinite :: "number \<Rightarrow> bool" where
  "isFinite (Finite _) = True"
| "isFinite _ = False"

text \<open>The comparison operators of the language: every comparison with NaN is false.\<close>

fun num_lt :: "number \<Rightarrow> number \<Rightarrow> bool" where
  "num_lt NaN _ = False"
| "num_lt _ NaN = False"
| "num_lt (Finite x) (Finite y) = (x < y)"
| "num_lt _ NegInfinity = False"
| "num_lt PosInfinity _ = False"
| "num_lt NegInfinity _ = True"
| "num_lt _ PosInfinity = True"

fun num_le :: "number \<Rightarrow> number \<Rightarrow> bool" where
  "num_le NaN _ = False"
| "num_le _ NaN = False"
| "num_le (Finite x) (Finite y) = (x \<le> y)"
| "num_le NegInfinity _ = True"
| "num_le _ PosInfinity = True"
| "num_le _ NegInfinity = False"
| "num_le PosInfinity _ = False"

text \<open>
  The value of a number that validation has found finite. The solver reads no other
  number, so the result on a non-finite number is never used.
\<close>

fun val :: "number \<Rightarrow> real" where
  "val (Finite x) = x"
| "val _ = 0"

record SimulationNode =
  id_n :: string
  name_n :: string
  initialTemp :: number
  heatCapacity :: number
  isFixed :: bool
  fixedTemp :: number

record SimulationEdge =
  id_e :: string
  source :: string
  target :: string
  conductance :: number

record SimulationSettings =
  timeStep :: number
  totalTime :: number

record SimulationSeries =
  nodeId :: string
  name_s :: string
  temperatures :: "real list"

record SimulationResult =
  times_r :: "real list"
  series :: "SimulationSeries list"

text \<open>
  One constructor for each \<^verbatim>\<open>throw new SimulationError(...)\<close> of the source, in
  the order of the source. The three node messages interpolate the name of the node;
  the other messages are constant strings.
\<close>

datatype SimulationError =
    NoNodes
  | InvalidTimeStep
  | InvalidTotalTime
  | TotalTimeBelowTimeStep
  | InvalidHeatCapacity string
  | InvalidInitialTemp string
  | InvalidFixedTemp string
  | InvalidConductance
  | UnknownNodeReference

section \<open>Validation\<close>

text \<open>\<^verbatim>\<open>xs.forEach(check)\<close> with a throwing callback stops at the first element that throws.\<close>

fun forEach_check :: "('a \<Rightarrow> 'e option) \<Rightarrow> 'a list \<Rightarrow> 'e option" where
  "forEach_check check [] = None"
| "forEach_check check (x # xs) =
     (case check x of Some e \<Rightarrow> Some e | None \<Rightarrow> forEach_check check xs)"

text \<open>
  The three checks of one node, in the order of the source (lines 59 to 69).
\<close>

definition checkNode :: "SimulationNode \<Rightarrow> SimulationError option" where
  "checkNode node =
     (if \<not> isFinite (heatCapacity node) \<or> num_le (heatCapacity node) (Finite 0)
      then Some (InvalidHeatCapacity (name_n node))
      else if \<not> isFinite (initialTemp node)
      then Some (InvalidInitialTemp (name_n node))
      else if isFixed node \<and> \<not> isFinite (fixedTemp node)
      then Some (InvalidFixedTemp (name_n node))
      else None)"

text \<open>
  The check of one edge at lines 73 to 75.
\<close>

definition checkConductance :: "SimulationEdge \<Rightarrow> SimulationError option" where
  "checkConductance edge =
     (if \<not> isFinite (conductance edge) \<or> num_lt (conductance edge) (Finite 0)
      then Some InvalidConductance else None)"

text \<open>
  \<^verbatim>\<open>nodes.forEach((node, index) => nodeIndex.set(node.id, index))\<close>: a later node
  with the same id overwrites the entry of an earlier one.
\<close>

fun nodeIndex_from :: "nat \<Rightarrow> SimulationNode list \<Rightarrow> (string \<rightharpoonup> nat) \<Rightarrow> (string \<rightharpoonup> nat)" where
  "nodeIndex_from index [] m = m"
| "nodeIndex_from index (node # nodes) m = nodeIndex_from (Suc index) nodes (m(id_n node \<mapsto> index))"

definition nodeIndex :: "SimulationNode list \<Rightarrow> (string \<rightharpoonup> nat)" where
  "nodeIndex nodes = nodeIndex_from 0 nodes Map.empty"

text \<open>
  The check of one edge at lines 82 to 84: \<^verbatim>\<open>nodeIndex.has\<close> of both endpoints.
\<close>

definition checkEndpoints :: "(string \<rightharpoonup> nat) \<Rightarrow> SimulationEdge \<Rightarrow> SimulationError option" where
  "checkEndpoints idx edge =
     (if idx (source edge) = None \<or> idx (target edge) = None
      then Some UnknownNodeReference else None)"

text \<open>
  All the checks of \<^verbatim>\<open>simulateThermalNetwork\<close> (lines 40 to 85) in the order of the
  source; \<open>None\<close> when none of them throws.
\<close>

definition validate ::
  "SimulationNode list \<Rightarrow> SimulationEdge list \<Rightarrow> SimulationSettings \<Rightarrow> SimulationError option" where
  "validate nodes edges settings =
     (if nodes = [] then Some NoNodes
      else if \<not> isFinite (timeStep settings) \<or> num_le (timeStep settings) (Finite 0)
      then Some InvalidTimeStep
      else if \<not> isFinite (totalTime settings) \<or> num_le (totalTime settings) (Finite 0)
      then Some InvalidTotalTime
      else if num_lt (totalTime settings) (timeStep settings)
      then Some TotalTimeBelowTimeStep
      else case forEach_check checkNode nodes of Some e \<Rightarrow> Some e | None \<Rightarrow>
        (case forEach_check checkConductance edges of Some e \<Rightarrow> Some e | None \<Rightarrow>
           forEach_check (checkEndpoints (nodeIndex nodes)) edges))"

section \<open>Adjacency and the time-stepping loop\<close>

type_synonym neighbor = "nat \<times> real"

text \<open>
  One edge pushes an entry on the list of its source and then one on the list of its
  target. The lookups cannot miss: validation has found both ids in the index.
\<close>

definition addEdge :: "(string \<rightharpoonup> nat) \<Rightarrow> SimulationEdge \<Rightarrow> neighbor list list \<Rightarrow> neighbor list list" where
  "addEdge idx edge adj =
     (let sourceIndex = the (idx (source edge));
          targetIndex = the (idx (target edge));
          adj1 = adj[sourceIndex := adj ! sourceIndex @ [(targetIndex, val (conductance edge))]]
      in adj1[targetIndex := adj1 ! targetIndex @ [(sourceIndex, val (conductance edge))]])"

text \<open>
  \<^verbatim>\<open>nodes.map(() => [])\<close> followed by the \<^verbatim>\<open>forEach\<close> over the edges.
\<close>

definition adjacency :: "SimulationNode list \<Rightarrow> SimulationEdge list \<Rightarrow> neighbor list list" where
  "adjacency nodes edges = fold (addEdge (nodeIndex nodes)) edges (replicate (length nodes) [])"

text \<open>
  The temperatures of sample 0: \<open>fixedTemp\<close> for a fixed node, \<open>initialTemp\<close> otherwise.
\<close>

definition initialTemps :: "SimulationNode list \<Rightarrow> real list" where
  "initialTemps nodes =
     map (\<lambda>node. if isFixed node then val (fixedTemp node) else val (initialTemp node)) nodes"

text \<open>
  The series as created, with the temperatures of sample 0 already pushed.
\<close>

definition initialSeries :: "SimulationNode list \<Rightarrow> real list \<Rightarrow> SimulationSeries list" where
  "initialSeries nodes temps =
     map (\<lambda>index. \<lparr>nodeId = id_n (nodes ! index), name_s = name_n (nodes ! index),
                   temperatures = [temps ! index]\<rparr>) [0..<length nodes]"

definition tolerance :: real where
  "tolerance = 1 / 10 ^ 9"

text \<open>The inner loop over the neighbors of node \<open>i\<close>, reading the snapshot \<open>currentTemps\<close>.\<close>

definition netHeatFlow :: "real list \<Rightarrow> nat \<Rightarrow> neighbor list \<Rightarrow> real" where
  "netHeatFlow currentTemps i neighbors =
     fold (\<lambda>(neighborIndex, conductance) flow.
             flow + conductance * (currentTemps ! neighborIndex - currentTemps ! i))
          neighbors 0"

text \<open>
  The body of the loop over \<open>i\<close>: the value assigned to \<open>nextTemps[i]\<close>.
\<close>

definition nextTemp ::
  "SimulationNode list \<Rightarrow> neighbor list list \<Rightarrow> real list \<Rightarrow> real \<Rightarrow> nat \<Rightarrow> real" where
  "nextTemp nodes adj currentTemps step i =
     (let node = nodes ! i in
      if isFixed node then val (fixedTemp node)
      else let temperatureDerivative =
                 netHeatFlow currentTemps i (adj ! i) / val (heatCapacity node)
           in currentTemps ! i + temperatureDerivative * step)"

text \<open>
  The source copies \<open>currentTemps\<close> and then assigns every index below
  \<open>nodes.length\<close>, reading only \<open>currentTemps\<close>.
\<close>

definition nextTemps ::
  "SimulationNode list \<Rightarrow> neighbor list list \<Rightarrow> real list \<Rightarrow> real \<Rightarrow> real list" where
  "nextTemps nodes adj currentTemps step =
     map (nextTemp nodes adj currentTemps step) [0..<length nodes]"

text \<open>
  The second loop over \<open>i\<close>: each series receives the committed temperature of its node.
\<close>

definition pushTemps :: "SimulationNode list \<Rightarrow> SimulationSeries list \<Rightarrow> real list \<Rightarrow> SimulationSeries list" where
  "pushTemps nodes ser temps =
     map (\<lambda>i. (ser ! i)\<lparr>temperatures := temperatures (ser ! i) @ [temps ! i]\<rparr>) [0..<length nodes]"

text \<open>
  \<^verbatim>\<open>Number(elapsed.toFixed(6))\<close>: the nearest multiple of \<open>10\<^sup>-\<^sup>6\<close>, ties away from
  zero; from \<open>10\<^sup>2\<^sup>1\<close> on, \<^verbatim>\<open>toFixed\<close> prints the number itself.
\<close>

definition toFixed6 :: "real \<Rightarrow> real" where
  "toFixed6 x =
     (if 10 ^ 21 \<le> \<bar>x\<bar> then x
      else if x < 0 then - (real_of_int \<lfloor>(- x) * 10 ^ 6 + 1 / 2\<rfloor> / 10 ^ 6)
      else real_of_int \<lfloor>x * 10 ^ 6 + 1 / 2\<rfloor> / 10 ^ 6)"

text \<open>
  The \<^verbatim>\<open>while\<close> loop. Nothing in the loop itself bounds the number of rounds, so a
  run that never leaves the loop is the value \<open>None\<close>.
\<close>

partial_function (option) timeLoop ::
  "SimulationNode list \<Rightarrow> neighbor list list \<Rightarrow> real \<Rightarrow> real \<Rightarrow>
   real \<Rightarrow> real list \<Rightarrow> real list \<Rightarrow> SimulationSeries list \<Rightarrow>
   (real list \<times> SimulationSeries list) option" where
  "timeLoop nodes adj dt totalT elapsed currentTemps tms ser =
     (if elapsed + tolerance < totalT then
        (let step = min dt (totalT - elapsed);
             elapsed' = elapsed + step;
             temps' = nextTemps nodes adj currentTemps step
         in timeLoop nodes adj dt totalT elapsed' temps'
              (tms @ [toFixed6 elapsed']) (pushTemps nodes ser temps'))
      else Some (tms, ser))"

text \<open>
  The whole function: an error of validation is \<open>Inl\<close>, a result is \<open>Inr\<close>, and
  \<open>None\<close> stands for a loop that does not end.
\<close>

definition simulateThermalNetwork ::
  "SimulationNode list \<Rightarrow> SimulationEdge list \<Rightarrow> SimulationSettings \<Rightarrow>
   (SimulationError + SimulationResult) option" where
  "simulateThermalNetwork nodes edges settings =
     (case validate nodes edges settings of
        Some e \<Rightarrow> Some (Inl e)
      | None \<Rightarrow>
          (let currentTemps = initialTemps nodes in
           case timeLoop nodes (adjacency nodes edges)
                  (val (timeStep settings)) (val (totalTime settings))
                  0 currentTemps [0] (initialSeries nodes currentTemps) of
             None \<Rightarrow> None
           | Some (tms, ser) \<Rightarrow> Some (Inr \<lparr>times_r = tms, series = ser\<rparr>)))"

section \<open>Parameter estimator\<close>









section \<open>The run of the loop in closed form\<close>

text \<open>
  The values that the variables of the loop hold after \<open>k\<close> rounds, following the
  assignments of the loop body: \<open>elapsed\<close>, the step size of round \<open>k + 1\<close>, and
  \<open>currentTemps\<close>. They are used to state what the loop returns.
\<close>

primrec elapsedAfter :: "real \<Rightarrow> real \<Rightarrow> nat \<Rightarrow> real" where
  "elapsedAfter dt totalT 0 = 0"
| "elapsedAfter dt totalT (Suc k) =
     elapsedAfter dt totalT k + min dt (totalT - elapsedAfter dt totalT k)"

definition stepAt :: "real \<Rightarrow> real \<Rightarrow> nat \<Rightarrow> real" where
  "stepAt dt totalT k = min dt (totalT - elapsedAfter dt totalT k)"

primrec tempsAfter ::
  "SimulationNode list \<Rightarrow> neighbor list list \<Rightarrow> real \<Rightarrow> real \<Rightarrow> nat \<Rightarrow> real list" where
  "tempsAfter nodes adj dt totalT 0 = initialTemps nodes"
| "tempsAfter nodes adj dt totalT (Suc k) =
     nextTemps nodes adj (tempsAfter nodes adj dt totalT k) (stepAt dt totalT k)"

text \<open>
  The series that hold, for each node, its entry of every row of temperatures.
\<close>

definition seriesOf :: "SimulationNode list \<Rightarrow> real list list \<Rightarrow> SimulationSeries list" where
  "seriesOf nodes rows =
     map (\<lambda>i. \<lparr>nodeId = id_n (nodes ! i), name_s = name_n (nodes ! i),
               temperatures = map (\<lambda>row. row ! i) rows\<rparr>) [0..<length nodes]"

text \<open>
  The number of rounds after which the guard \<^verbatim>\<open>elapsed + tolerance < totalTime\<close> fails.
\<close>

definition stepCount :: "real \<Rightarrow> real \<Rightarrow> nat" where
  "stepCount dt totalT = nat \<lceil>(totalT - tolerance) / dt\<rceil>"

section \<open>Notions used to state the claims\<close>

text \<open>
  An edge that passes both checks on edges.
\<close>

definition validEdge :: "SimulationNode list \<Rightarrow> SimulationEdge \<Rightarrow> bool" where
  "validEdge nodes edge =
     (checkConductance edge = None \<and> checkEndpoints (nodeIndex nodes) edge = None)"

text \<open>Every neighbor index stored in an adjacency structure is below \<open>n\<close>.\<close>

definition neighborsBelow :: "nat \<Rightarrow> neighbor list list \<Rightarrow> bool" where
  "neighborsBelow n adj = (\<forall>nbs\<in>set adj. \<forall>nb\<in>set nbs. fst nb < n)"

text \<open>
  What one edge contributes to the net heat flow of node \<open>i\<close>: one term if \<open>i\<close> is
  its source and one if \<open>i\<close> is its target.
\<close>

definition edgeFlow :: "(string \<rightharpoonup> nat) \<Rightarrow> real list \<Rightarrow> nat \<Rightarrow> SimulationEdge \<Rightarrow> real" where
  "edgeFlow idx T i edge =
     (let s = the (idx (source edge)); t = the (idx (target edge)); g = val (conductance edge)
      in (if s = i then g * (T ! t - T ! i) else 0) + (if t = i then g * (T ! s - T ! i) else 0))"


text \<open>
  The seven preconditions in the words and the order of section 4.1 of the
  specification, their position in that list, and what it means for an input to violate
  each of them.
\<close>

datatype precondition =
    NodesNonEmpty
  | TimeStepPositive
  | TotalTimePositive
  | TotalTimeAtLeastTimeStep
  | NodeValuesValid
  | ConductancesValid
  | EndpointsExist

fun rank :: "precondition \<Rightarrow> nat" where
  "rank NodesNonEmpty = 1"
| "rank TimeStepPositive = 2"
| "rank TotalTimePositive = 3"
| "rank TotalTimeAtLeastTimeStep = 4"
| "rank NodeValuesValid = 5"
| "rank ConductancesValid = 6"
| "rank EndpointsExist = 7"

fun violated ::
  "SimulationNode list \<Rightarrow> SimulationEdge list \<Rightarrow> SimulationSettings \<Rightarrow> precondition \<Rightarrow> bool" where
  "violated nodes edges settings NodesNonEmpty = (nodes = [])"
| "violated nodes edges settings TimeStepPositive =
     (\<not> (isFinite (timeStep settings) \<and> num_lt (Finite 0) (timeStep settings)))"
| "violated nodes edges settings TotalTimePositive =
     (\<not> (isFinite (totalTime settings) \<and> num_lt (Finite 0) (totalTime settings)))"
| "violated nodes edges settings TotalTimeAtLeastTimeStep =
     (\<not> num_le (timeStep settings) (totalTime settings))"
| "violated nodes edges settings NodeValuesValid =
     (\<exists>node\<in>set nodes.
        \<not> (isFinite (heatCapacity node) \<and> num_lt (Finite 0) (heatCapacity node)) \<or>
        \<not> isFinite (initialTemp node) \<or>
        (isFixed node \<and> \<not> isFinite (fixedTemp node)))"
| "violated nodes edges settings ConductancesValid =
     (\<exists>edge\<in>set edges.
        \<not> (isFinite (conductance edge) \<and> num_le (Finite 0) (conductance edge)))"
| "violated nodes edges settings EndpointsExist =
     (\<exists>edge\<in>set edges.
        source edge \<notin> id_n ` set nodes \<or> target edge \<notin> id_n ` set nodes)"

text \<open>
  The precondition that each error reports.
\<close>

fun errorPrecondition :: "SimulationError \<Rightarrow> precondition" where
  "errorPrecondition NoNodes = NodesNonEmpty"
| "errorPrecondition InvalidTimeStep = TimeStepPositive"
| "errorPrecondition InvalidTotalTime = TotalTimePositive"
| "errorPrecondition TotalTimeBelowTimeStep = TotalTimeAtLeastTimeStep"
| "errorPrecondition (InvalidHeatCapacity _) = NodeValuesValid"
| "errorPrecondition (InvalidInitialTemp _) = NodeValuesValid"
| "errorPrecondition (InvalidFixedTemp _) = NodeValuesValid"
| "errorPrecondition InvalidConductance = ConductancesValid"
| "errorPrecondition UnknownNodeReference = EndpointsExist"

text \<open>What each error says about the input: the violation that its message names.\<close>

fun describes ::
  "SimulationNode list \<Rightarrow> SimulationEdge list \<Rightarrow> SimulationSettings \<Rightarrow> SimulationError \<Rightarrow> bool" where
  "describes nodes edges settings NoNodes = (nodes = [])"
| "describes nodes edges settings InvalidTimeStep =
     (\<not> isFinite (timeStep settings) \<or> num_le (timeStep settings) (Finite 0))"
| "describes nodes edges settings InvalidTotalTime =
     (\<not> isFinite (totalTime settings) \<or> num_le (totalTime settings) (Finite 0))"
| "describes nodes edges settings TotalTimeBelowTimeStep =
     num_lt (totalTime settings) (timeStep settings)"
| "describes nodes edges settings (InvalidHeatCapacity nm) =
     (\<exists>node\<in>set nodes. name_n node = nm \<and>
        (\<not> isFinite (heatCapacity node) \<or> num_le (heatCapacity node) (Finite 0)))"
| "describes nodes edges settings (InvalidInitialTemp nm) =
     (\<exists>node\<in>set nodes. name_n node = nm \<and> \<not> isFinite (initialTemp node))"
| "describes nodes edges settings (InvalidFixedTemp nm) =
     (\<exists>node\<in>set nodes. name_n node = nm \<and> isFixed node \<and> \<not> isFinite (fixedTemp node))"
| "describes nodes edges settings InvalidConductance =
     (\<exists>edge\<in>set edges. \<not> isFinite (conductance edge) \<or> num_lt (conductance edge) (Finite 0))"
| "describes nodes edges settings UnknownNodeReference =
     (\<exists>edge\<in>set edges. source edge \<notin> id_n ` set nodes \<or> target edge \<notin> id_n ` set nodes)"

section \<open>Example networks\<close>

text \<open>
  The two-node network of the specification's end-to-end example: a free node \<open>A\<close>
  at 100 degrees with heat capacity 50, a fixed node \<open>B\<close> at 20 degrees, and one
  edge of conductance 5 between them.
\<close>

definition exampleA :: SimulationNode where
  "exampleA = \<lparr>id_n = ''a'', name_n = ''A'', initialTemp = Finite 100,
                heatCapacity = Finite 50, isFixed = False, fixedTemp = Finite 0\<rparr>"

definition exampleB :: SimulationNode where
  "exampleB = \<lparr>id_n = ''b'', name_n = ''B'', initialTemp = Finite 0,
                heatCapacity = Finite 1, isFixed = True, fixedTemp = Finite 20\<rparr>"

definition exampleEdge :: SimulationEdge where
  "exampleEdge = \<lparr>id_e = ''e1'', source = ''a'', target = ''b'', conductance = Finite 5\<rparr>"

definition exampleSettings :: SimulationSettings where
  "exampleSettings = \<lparr>timeStep = Finite 1, totalTime = Finite 5\<rparr>"



definition exampleLoop :: SimulationEdge where
  "exampleLoop = \<lparr>id_e = ''loop'', source = ''a'', target = ''a'', conductance = Finite 3\<rparr>"



definition exampleBadNode :: SimulationNode where
  "exampleBadNode = \<lparr>id_n = ''d'', name_n = ''D'', initialTemp = NaN,
                      heatCapacity = Finite 0, isFixed = False, fixedTemp = Finite 0\<rparr>"

definition exampleNegativeEdge :: SimulationEdge where
  "exampleNegativeEdge = \<lparr>id_e = ''x1'', source = ''a'', target = ''b'', conductance = Finite (- 1)\<rparr>"

definition exampleNaNEdge :: SimulationEdge where
  "exampleNaNEdge = \<lparr>id_e = ''x2'', source = ''b'', target = ''a'', conductance = NaN\<rparr>"

definition exampleDanglingEdge :: SimulationEdge where
  "exampleDanglingEdge = \<lparr>id_e = ''x3'', source = ''a'', target = ''zz'', conductance = Finite 1\<rparr>"

definition exampleDanglingEdge2 :: SimulationEdge where
  "exampleDanglingEdge2 = \<lparr>id_e = ''x4'', source = ''yy'', target = ''b'', conductance = Finite 2\<rparr>"




section \<open>Lemmas\<close>

subsection \<open>Validation\<close>

lemma forEach_check_None: "(forEach_check check xs = None) = (\<forall>x\<in>set xs. check x = None)"
  by (induction xs) (auto split: option.splits)

lemma forEach_check_SomeD:
  "forEach_check check xs = Some e \<Longrightarrow> \<exists>x\<in>set xs. check x = Some e"
  by (induction xs) (auto split: option.splits)

lemma forEach_check_violation:
  "(\<exists>x\<in>set xs. check x \<noteq> None) \<Longrightarrow> \<exists>e x. forEach_check check xs = Some e \<and> x \<in> set xs \<and> check x = Some e"
proof -
  assume "\<exists>x\<in>set xs. check x \<noteq> None"
  then have "forEach_check check xs \<noteq> None" by (simp add: forEach_check_None)
  then obtain e where e: "forEach_check check xs = Some e" by auto
  from forEach_check_SomeD[OF e] e show ?thesis by blast
qed

lemma nodeIndex_from_Some:
  "nodeIndex_from n nodes m k = Some i \<Longrightarrow>
   (\<exists>j<length nodes. i = n + j \<and> id_n (nodes ! j) = k) \<or> (m k = Some i \<and> k \<notin> id_n ` set nodes)"
proof (induction nodes arbitrary: n m)
  case Nil
  then show ?case by simp
next
  case (Cons a nodes)
  from Cons.prems have p: "nodeIndex_from (Suc n) nodes (m(id_n a \<mapsto> n)) k = Some i"
    by simp
  have "(\<exists>j<length nodes. i = Suc n + j \<and> id_n (nodes ! j) = k) \<or>
        ((m(id_n a \<mapsto> n)) k = Some i \<and> k \<notin> id_n ` set nodes)"
    by (rule Cons.IH[OF p])
  then show ?case
  proof
    assume "\<exists>j<length nodes. i = Suc n + j \<and> id_n (nodes ! j) = k"
    then obtain j where "j < length nodes" "i = Suc n + j" "id_n (nodes ! j) = k" by blast
    then have "Suc j < length (a # nodes) \<and> i = n + Suc j \<and> id_n ((a # nodes) ! Suc j) = k"
      by simp
    then show ?thesis by blast
  next
    assume b: "(m(id_n a \<mapsto> n)) k = Some i \<and> k \<notin> id_n ` set nodes"
    show ?thesis
    proof (cases "k = id_n a")
      case True
      with b have "0 < length (a # nodes) \<and> i = n + 0 \<and> id_n ((a # nodes) ! 0) = k" by simp
      then show ?thesis by blast
    next
      case False
      with b show ?thesis by simp
    qed
  qed
qed

lemma nodeIndex_from_None:
  "(nodeIndex_from n nodes m k = None) = (m k = None \<and> k \<notin> id_n ` set nodes)"
  by (induction nodes arbitrary: n m) auto

lemma nodeIndex_Some: "nodeIndex nodes k = Some i \<Longrightarrow> i < length nodes \<and> id_n (nodes ! i) = k"
  using nodeIndex_from_Some[of 0 nodes Map.empty k i] by (auto simp: nodeIndex_def)

lemma nodeIndex_None: "(nodeIndex nodes k = None) = (k \<notin> id_n ` set nodes)"
  by (simp add: nodeIndex_def nodeIndex_from_None)

lemma validate_None:
  "(validate nodes edges settings = None) =
   (nodes \<noteq> [] \<and>
    (\<exists>dt totalT. timeStep settings = Finite dt \<and> totalTime settings = Finite totalT \<and>
        0 < dt \<and> dt \<le> totalT) \<and>
    (\<forall>node\<in>set nodes. checkNode node = None) \<and>
    (\<forall>edge\<in>set edges. validEdge nodes edge))"
proof (cases "timeStep settings")
  case (Finite dt)
  show ?thesis
  proof (cases "totalTime settings")
    case (Finite totalT)
    show ?thesis
      using \<open>timeStep settings = Finite dt\<close> Finite
      by (auto simp: validate_def forEach_check_None validEdge_def split: option.splits
            dest!: forEach_check_SomeD)
  qed (auto simp: validate_def Finite)
qed (auto simp: validate_def)


lemma simulate_invalid:
  "validate nodes edges settings = Some e \<Longrightarrow>
   simulateThermalNetwork nodes edges settings = Some (Inl e)"
  by (simp add: simulateThermalNetwork_def)

lemma validEdge_indices:
  assumes "validEdge nodes edge"
  shows "the (nodeIndex nodes (source edge)) < length nodes \<and>
         the (nodeIndex nodes (target edge)) < length nodes"
proof -
  from assms obtain s t where st: "nodeIndex nodes (source edge) = Some s"
      "nodeIndex nodes (target edge) = Some t"
    by (auto simp: validEdge_def checkEndpoints_def split: if_splits)
  then show ?thesis using nodeIndex_Some[OF st(1)] nodeIndex_Some[OF st(2)] by simp
qed


lemma validate_edges_cong:
  assumes "validate nodes es settings = None" "\<forall>edge\<in>set es'. validEdge nodes edge"
  shows "validate nodes es' settings = None"
  using assms unfolding validate_None by blast

subsection \<open>The loop\<close>

lemma elapsedAfter_min:
  assumes "0 < dt" "0 \<le> totalT"
  shows "elapsedAfter dt totalT k = min (real k * dt) totalT"
proof (induction k)
  case 0
  show ?case using assms by simp
next
  case (Suc k)
  show ?case
  proof (cases "real k * dt \<le> totalT")
    case True
    then show ?thesis using Suc assms by (simp add: min_def algebra_simps)
  next
    case False
    then show ?thesis using Suc assms by (simp add: min_def algebra_simps)
  qed
qed

lemma loop_condition:
  assumes "0 < dt" "0 \<le> totalT"
  shows "(elapsedAfter dt totalT k + tolerance < totalT) = (k < stepCount dt totalT)"
proof -
  have tol: "0 < tolerance" by (simp add: tolerance_def)
  have "(elapsedAfter dt totalT k + tolerance < totalT) = (real k * dt + tolerance < totalT)"
    using tol by (simp add: elapsedAfter_min[OF assms] min_def)
  also have "\<dots> = (real k < (totalT - tolerance) / dt)"
    using assms(1) by (simp add: pos_less_divide_eq algebra_simps)
  also have "\<dots> = (int k < \<lceil>(totalT - tolerance) / dt\<rceil>)"
    by (simp add: less_ceiling_iff)
  also have "\<dots> = (k < stepCount dt totalT)"
    by (simp add: stepCount_def zless_nat_eq_int_zless)
  finally show ?thesis .
qed

lemma initialSeries_seriesOf:
  "initialSeries nodes temps = seriesOf nodes [temps]"
  by (simp add: initialSeries_def seriesOf_def)

lemma pushTemps_seriesOf:
  "pushTemps nodes (seriesOf nodes rows) temps = seriesOf nodes (rows @ [temps])"
  by (simp add: pushTemps_def seriesOf_def)

lemma timeLoop_run:
  assumes "0 < dt" "0 \<le> totalT"
  shows "k \<le> stepCount dt totalT \<Longrightarrow>
    timeLoop nodes adj dt totalT (elapsedAfter dt totalT k) (tempsAfter nodes adj dt totalT k)
      (map (\<lambda>j. toFixed6 (elapsedAfter dt totalT j)) [0..<Suc k])
      (seriesOf nodes (map (tempsAfter nodes adj dt totalT) [0..<Suc k]))
    = Some (map (\<lambda>j. toFixed6 (elapsedAfter dt totalT j)) [0..<Suc (stepCount dt totalT)],
            seriesOf nodes (map (tempsAfter nodes adj dt totalT) [0..<Suc (stepCount dt totalT)]))"
proof (induction "stepCount dt totalT - k" arbitrary: k)
  case 0
  then have k: "k = stepCount dt totalT" by simp
  have "\<not> elapsedAfter dt totalT k + tolerance < totalT"
    using loop_condition[OF assms, of k] k by simp
  then show ?case
    by (subst timeLoop.simps) (simp add: k)
next
  case (Suc d)
  then have lt: "k < stepCount dt totalT" by simp
  have c: "elapsedAfter dt totalT k + tolerance < totalT"
    using loop_condition[OF assms, of k] lt by simp
  have ih: "timeLoop nodes adj dt totalT (elapsedAfter dt totalT (Suc k)) (tempsAfter nodes adj dt totalT (Suc k))
      (map (\<lambda>j. toFixed6 (elapsedAfter dt totalT j)) [0..<Suc (Suc k)])
      (seriesOf nodes (map (tempsAfter nodes adj dt totalT) [0..<Suc (Suc k)]))
    = Some (map (\<lambda>j. toFixed6 (elapsedAfter dt totalT j)) [0..<Suc (stepCount dt totalT)],
            seriesOf nodes (map (tempsAfter nodes adj dt totalT) [0..<Suc (stepCount dt totalT)]))"
    using Suc(1)[of "Suc k"] Suc(2) lt by simp
  show ?case
    apply (subst timeLoop.simps)
    apply (simp only: c if_True Let_def pushTemps_seriesOf)
    using ih by (simp add: stepAt_def)
qed

lemma simulate_closed_form:
  assumes "validate nodes edges settings = None"
  shows "simulateThermalNetwork nodes edges settings =
     Some (Inr \<lparr>times_r = map (\<lambda>j. toFixed6 (elapsedAfter (val (timeStep settings)) (val (totalTime settings)) j))
                          [0..<Suc (stepCount (val (timeStep settings)) (val (totalTime settings)))],
               series = seriesOf nodes
                  (map (tempsAfter nodes (adjacency nodes edges) (val (timeStep settings)) (val (totalTime settings)))
                       [0..<Suc (stepCount (val (timeStep settings)) (val (totalTime settings)))])\<rparr>)"
proof -
  from assms obtain dt totalT where
    s: "timeStep settings = Finite dt" "totalTime settings = Finite totalT" "0 < dt" "dt \<le> totalT"
    by (auto simp: validate_None)
  have pos: "0 < val (timeStep settings)" "0 \<le> val (totalTime settings)"
    using s by simp_all
  have z: "toFixed6 0 = 0" by (simp add: toFixed6_def)
  show ?thesis
    using timeLoop_run[OF pos, of 0 nodes "adjacency nodes edges"] assms
    by (simp add: simulateThermalNetwork_def initialSeries_seriesOf z)
qed

lemma seriesOf_length: "length (seriesOf nodes rows) = length nodes"
  by (simp add: seriesOf_def)

lemma seriesOf_temperatures:
  "i < length nodes \<Longrightarrow> temperatures (seriesOf nodes rows ! i) = map (\<lambda>row. row ! i) rows"
  by (simp add: seriesOf_def)

lemma result_temperature:
  assumes "i < length nodes" "k < Suc n"
  shows "temperatures (seriesOf nodes (map f [0..<Suc n]) ! i) ! k = f k ! i"
proof -
  have u: "[0..<Suc n] ! k = k"
    using assms(2) by (metis add_0 nth_upt)
  have l: "k < length [0..<Suc n]" using assms(2) by (simp del: upt_Suc)
  have "map (\<lambda>row. row ! i) (map f [0..<Suc n]) ! k = f ([0..<Suc n] ! k) ! i"
    using l by (simp only: nth_map length_map)
  then show ?thesis using assms(1) by (simp only: seriesOf_temperatures u)
qed






subsection \<open>Evaluation of the examples\<close>

lemmas eval_defs = simulateThermalNetwork_def validate_def checkNode_def checkConductance_def
  checkEndpoints_def nodeIndex_def adjacency_def addEdge_def initialTemps_def initialSeries_def
  tolerance_def nextTemps_def nextTemp_def pushTemps_def toFixed6_def netHeatFlow_def Let_def

lemmas example_defs = exampleA_def exampleB_def exampleEdge_def exampleSettings_def

lemma example_valid: "validate [exampleA, exampleB] [exampleEdge] exampleSettings = None"
  by (simp add: eval_defs example_defs)

lemma example_run:
  "simulateThermalNetwork [exampleA, exampleB] [exampleEdge] exampleSettings =
     Some (Inr \<lparr>times_r = [0, 1, 2, 3, 4, 5],
                  series = [\<lparr>nodeId = ''a'', name_s = ''A'',
                              temperatures = [100, 92, 424 / 5, 1958 / 25, 9061 / 125, 84049 / 1250]\<rparr>,
                            \<lparr>nodeId = ''b'', name_s = ''B'',
                              temperatures = [20, 20, 20, 20, 20, 20]\<rparr>]\<rparr>)"
  by (simp add: eval_defs example_defs timeLoop.simps)

subsection \<open>Temperatures and heat flow\<close>

lemma fold_flow_acc:
  "fold (\<lambda>(j, g) flow. flow + g * (T ! j - T ! i)) nbs acc =
   acc + (\<Sum>(j, g)\<leftarrow>nbs. g * (T ! j - T ! i))"
  by (induction nbs arbitrary: acc) (auto simp: algebra_simps)

lemma netHeatFlow_sum_list:
  "netHeatFlow T i nbs = (\<Sum>(j, g)\<leftarrow>nbs. g * (T ! j - T ! i))"
  by (simp add: netHeatFlow_def fold_flow_acc)

lemma length_addEdge: "length (addEdge idx edge adj) = length adj"
  by (simp add: addEdge_def Let_def)

lemma length_fold_addEdge: "length (fold (addEdge idx) edges adj) = length adj"
  by (induction edges arbitrary: adj) (simp_all add: length_addEdge)

lemma length_adjacency: "length (adjacency nodes edges) = length nodes"
  by (simp add: adjacency_def length_fold_addEdge)

lemma neighborsBelow_update:
  assumes "neighborsBelow n adj" "j < n"
  shows "neighborsBelow n (adj[i := adj ! i @ [(j, g)]])"
proof (cases "i < length adj")
  case False
  then show ?thesis using assms(1) by (simp add: list_update_beyond)
next
  case True
  then have m: "adj ! i \<in> set adj" by simp
  show ?thesis
    unfolding neighborsBelow_def
  proof (intro ballI)
    fix nbs nb
    assume nbs: "nbs \<in> set (adj[i := adj ! i @ [(j, g)]])" and nb: "nb \<in> set nbs"
    from nbs set_update_subset_insert[of adj i "adj ! i @ [(j, g)]"]
    have "nbs = adj ! i @ [(j, g)] \<or> nbs \<in> set adj" by blast
    then show "fst nb < n"
    proof
      assume "nbs = adj ! i @ [(j, g)]"
      with nb have "nb \<in> set (adj ! i) \<or> nb = (j, g)" by auto
      then show ?thesis
        using assms m unfolding neighborsBelow_def by (elim disjE) (blast, simp)
    next
      assume "nbs \<in> set adj"
      with assms(1) nb show ?thesis unfolding neighborsBelow_def by blast
    qed
  qed
qed

lemma neighborsBelow_addEdge:
  assumes "neighborsBelow (length nodes) adj" "validEdge nodes edge"
  shows "neighborsBelow (length nodes) (addEdge (nodeIndex nodes) edge adj)"
  using validEdge_indices[OF assms(2)] assms(1)
  by (simp add: addEdge_def Let_def neighborsBelow_update)

lemma neighborsBelow_fold:
  "neighborsBelow (length nodes) adj \<Longrightarrow> \<forall>edge\<in>set edges. validEdge nodes edge \<Longrightarrow>
   neighborsBelow (length nodes) (fold (addEdge (nodeIndex nodes)) edges adj)"
  by (induction edges arbitrary: adj) (simp_all add: neighborsBelow_addEdge)

lemma neighborsBelow_adjacency:
  "\<forall>edge\<in>set edges. validEdge nodes edge \<Longrightarrow>
   neighborsBelow (length nodes) (adjacency nodes edges)"
  unfolding adjacency_def
  by (rule neighborsBelow_fold) (simp_all add: neighborsBelow_def)

lemma nextTemps_nth:
  "i < length nodes \<Longrightarrow> nextTemps nodes adj T step ! i = nextTemp nodes adj T step i"
  by (simp add: nextTemps_def)

lemma tempsAfter_fixed:
  "i < length nodes \<Longrightarrow> isFixed (nodes ! i) \<Longrightarrow>
   tempsAfter nodes adj dt totalT k ! i = val (fixedTemp (nodes ! i))"
  by (cases k) (simp_all add: initialTemps_def nextTemps_def nextTemp_def)

lemma tempsAfter_free:
  assumes "i < length nodes" "\<not> isFixed (nodes ! i)"
  shows "tempsAfter nodes adj dt totalT (Suc k) ! i =
     tempsAfter nodes adj dt totalT k ! i +
     (\<Sum>(j, g)\<leftarrow>adj ! i. g * (tempsAfter nodes adj dt totalT k ! j - tempsAfter nodes adj dt totalT k ! i))
       / val (heatCapacity (nodes ! i)) * stepAt dt totalT k"
proof -
  have "tempsAfter nodes adj dt totalT (Suc k) ! i =
        nextTemp nodes adj (tempsAfter nodes adj dt totalT k) (stepAt dt totalT k) i"
    using assms(1) by (simp only: tempsAfter.simps nextTemps_nth)
  also have "\<dots> = tempsAfter nodes adj dt totalT k ! i +
       netHeatFlow (tempsAfter nodes adj dt totalT k) i (adj ! i)
         / val (heatCapacity (nodes ! i)) * stepAt dt totalT k"
    using assms(2) by (simp add: nextTemp_def)
  finally show ?thesis by (simp only: netHeatFlow_sum_list)
qed

lemma netHeatFlow_snoc:
  "netHeatFlow T i (nbs @ [(j, g)]) = netHeatFlow T i nbs + g * (T ! j - T ! i)"
  by (simp add: netHeatFlow_sum_list)

lemma netHeatFlow_addEdge:
  assumes "the (idx (source edge)) < length adj" "the (idx (target edge)) < length adj"
    and "i < length adj"
  shows "netHeatFlow T i (addEdge idx edge adj ! i) = netHeatFlow T i (adj ! i) + edgeFlow idx T i edge"
proof -
  define s where "s = the (idx (source edge))"
  define t where "t = the (idx (target edge))"
  define g where "g = val (conductance edge)"
  define adj1 where "adj1 = adj[s := adj ! s @ [(t, g)]]"
  have st: "s < length adj" "t < length adj" using assms by (simp_all add: s_def t_def)
  have a: "addEdge idx edge adj = adj1[t := adj1 ! t @ [(s, g)]]"
    by (simp add: addEdge_def Let_def s_def t_def g_def adj1_def)
  have l1: "length adj1 = length adj" by (simp add: adj1_def)
  have f1: "netHeatFlow T i (adj1 ! i) =
      netHeatFlow T i (adj ! i) + (if s = i then g * (T ! t - T ! i) else 0)"
    using st assms(3) by (simp add: adj1_def netHeatFlow_snoc nth_list_update)
  have f2: "netHeatFlow T i (adj1[t := adj1 ! t @ [(s, g)]] ! i) =
      netHeatFlow T i (adj1 ! i) + (if t = i then g * (T ! s - T ! i) else 0)"
    using st assms(3) l1 by (simp add: netHeatFlow_snoc nth_list_update)
  show ?thesis
    unfolding a f2 f1 by (simp add: edgeFlow_def Let_def s_def t_def g_def)
qed

lemma netHeatFlow_fold:
  assumes "i < length adj"
  shows "\<forall>edge\<in>set edges. the (idx (source edge)) < length adj \<and> the (idx (target edge)) < length adj \<Longrightarrow>
    netHeatFlow T i (fold (addEdge idx) edges adj ! i) =
      netHeatFlow T i (adj ! i) + (\<Sum>edge\<leftarrow>edges. edgeFlow idx T i edge)"
  using assms
proof (induction edges arbitrary: adj)
  case Nil
  then show ?case by simp
next
  case (Cons e edges)
  have l: "length (addEdge idx e adj) = length adj" by (rule length_addEdge)
  have "netHeatFlow T i (fold (addEdge idx) edges (addEdge idx e adj) ! i) =
      netHeatFlow T i (addEdge idx e adj ! i) + (\<Sum>edge\<leftarrow>edges. edgeFlow idx T i edge)"
    using Cons.prems by (intro Cons.IH) (simp_all add: l)
  also have "netHeatFlow T i (addEdge idx e adj ! i) = netHeatFlow T i (adj ! i) + edgeFlow idx T i e"
    using Cons.prems by (intro netHeatFlow_addEdge) simp_all
  finally show ?case by simp
qed

lemma netHeatFlow_adjacency:
  assumes "\<forall>edge\<in>set edges. validEdge nodes edge" "i < length nodes"
  shows "netHeatFlow T i (adjacency nodes edges ! i) =
     (\<Sum>edge\<leftarrow>edges. edgeFlow (nodeIndex nodes) T i edge)"
proof -
  have "netHeatFlow T i (fold (addEdge (nodeIndex nodes)) edges (replicate (length nodes) []) ! i) =
      netHeatFlow T i (replicate (length nodes) [] ! i) + (\<Sum>edge\<leftarrow>edges. edgeFlow (nodeIndex nodes) T i edge)"
    using assms validEdge_indices by (intro netHeatFlow_fold) simp_all
  then show ?thesis using assms(2) by (simp add: adjacency_def netHeatFlow_def)
qed







lemma nextTemps_cong:
  assumes "\<forall>i<length nodes. netHeatFlow T i (adj ! i) = netHeatFlow T i (adj' ! i)"
  shows "nextTemps nodes adj T step = nextTemps nodes adj' T step"
  unfolding nextTemps_def
  by (rule map_cong[OF refl]) (simp add: nextTemp_def Let_def assms)

lemma tempsAfter_cong:
  assumes "\<forall>T i. i < length nodes \<longrightarrow> netHeatFlow T i (adj ! i) = netHeatFlow T i (adj' ! i)"
  shows "tempsAfter nodes adj dt totalT k = tempsAfter nodes adj' dt totalT k"
proof (induction k)
  case 0
  show ?case by simp
next
  case (Suc k)
  have "nextTemps nodes adj (tempsAfter nodes adj' dt totalT k) (stepAt dt totalT k) =
        nextTemps nodes adj' (tempsAfter nodes adj' dt totalT k) (stepAt dt totalT k)"
    by (rule nextTemps_cong) (simp add: assms)
  with Suc show ?case by simp
qed

lemma simulate_cong:
  assumes v: "validate nodes es settings = None" and v': "validate nodes es' settings = None"
    and flow: "\<forall>T i. i < length nodes \<longrightarrow>
       (\<Sum>e\<leftarrow>es. edgeFlow (nodeIndex nodes) T i e) = (\<Sum>e\<leftarrow>es'. edgeFlow (nodeIndex nodes) T i e)"
  shows "simulateThermalNetwork nodes es settings = simulateThermalNetwork nodes es' settings"
proof -
  have e: "\<forall>edge\<in>set es. validEdge nodes edge" "\<forall>edge\<in>set es'. validEdge nodes edge"
    using v v' by (simp_all add: validate_None)
  have "\<forall>T i. i < length nodes \<longrightarrow>
      netHeatFlow T i (adjacency nodes es ! i) = netHeatFlow T i (adjacency nodes es' ! i)"
    using flow by (simp add: netHeatFlow_adjacency[OF e(1)] netHeatFlow_adjacency[OF e(2)])
  then have "tempsAfter nodes (adjacency nodes es) (val (timeStep settings)) (val (totalTime settings)) =
             tempsAfter nodes (adjacency nodes es') (val (timeStep settings)) (val (totalTime settings))"
    by (intro ext tempsAfter_cong)
  then show ?thesis
    by (simp only: simulate_closed_form[OF v] simulate_closed_form[OF v'])
qed

lemma validEdge_self_loop:
  assumes "source e = target e" "source e \<in> id_n ` set nodes"
    "isFinite (conductance e)" "num_le (Finite 0) (conductance e)"
  shows "validEdge nodes e"
proof -
  from assms(3) obtain g where g: "conductance e = Finite g" by (cases "conductance e") simp_all
  have "nodeIndex nodes (source e) \<noteq> None" using assms(2) by (simp add: nodeIndex_None)
  then show ?thesis
    using assms(1,4) g by (simp add: validEdge_def checkConductance_def checkEndpoints_def)
qed

lemma edgeFlow_self_loop: "source e = target e \<Longrightarrow> edgeFlow idx T i e = 0"
  by (simp add: edgeFlow_def Let_def)



subsection \<open>The order of the checks and the content of the errors\<close>

lemma finite_positive: "(isFinite x \<and> num_lt (Finite 0) x) = (\<not> (\<not> isFinite x \<or> num_le x (Finite 0)))"
  by (cases x) auto

lemma finite_nonneg: "(isFinite x \<and> num_le (Finite 0) x) = (\<not> (\<not> isFinite x \<or> num_lt x (Finite 0)))"
  by (cases x) auto

lemma checkNode_None:
  "(checkNode node = None) =
   ((isFinite (heatCapacity node) \<and> num_lt (Finite 0) (heatCapacity node)) \<and>
    isFinite (initialTemp node) \<and> \<not> (isFixed node \<and> \<not> isFinite (fixedTemp node)))"
  unfolding finite_positive by (simp add: checkNode_def)

lemma checkNode_Some: "checkNode node = Some e \<Longrightarrow> errorPrecondition e = NodeValuesValid"
  by (auto simp: checkNode_def split: if_splits)

lemma checkConductance_None:
  "(checkConductance edge = None) = (isFinite (conductance edge) \<and> num_le (Finite 0) (conductance edge))"
  unfolding finite_nonneg by (simp add: checkConductance_def)

lemma checkConductance_Some: "checkConductance edge = Some e \<Longrightarrow> e = InvalidConductance"
  by (auto simp: checkConductance_def split: if_splits)

lemma checkEndpoints_None:
  "(checkEndpoints (nodeIndex nodes) edge = None) =
   (source edge \<in> id_n ` set nodes \<and> target edge \<in> id_n ` set nodes)"
  by (simp add: checkEndpoints_def nodeIndex_None)

lemma checkEndpoints_Some: "checkEndpoints idx edge = Some e \<Longrightarrow> e = UnknownNodeReference"
  by (auto simp: checkEndpoints_def split: if_splits)

lemma passes_1: "\<not> violated nodes edges settings NodesNonEmpty \<Longrightarrow> nodes \<noteq> []"
  by simp

lemma passes_2:
  "\<not> violated nodes edges settings TimeStepPositive \<Longrightarrow>
   \<not> (\<not> isFinite (timeStep settings) \<or> num_le (timeStep settings) (Finite 0))"
  by (simp add: finite_positive)

lemma passes_3:
  "\<not> violated nodes edges settings TotalTimePositive \<Longrightarrow>
   \<not> (\<not> isFinite (totalTime settings) \<or> num_le (totalTime settings) (Finite 0))"
  by (simp add: finite_positive)

lemma passes_4:
  "\<not> violated nodes edges settings TotalTimeAtLeastTimeStep \<Longrightarrow>
   \<not> num_lt (totalTime settings) (timeStep settings)"
  by (cases "timeStep settings"; cases "totalTime settings") auto

lemma passes_5:
  "\<not> violated nodes edges settings NodeValuesValid \<Longrightarrow> forEach_check checkNode nodes = None"
  by (auto simp: forEach_check_None checkNode_None)

lemma passes_6:
  "\<not> violated nodes edges settings ConductancesValid \<Longrightarrow>
   forEach_check checkConductance edges = None"
  by (auto simp: forEach_check_None checkConductance_None)

lemma fails_4:
  assumes "\<not> violated nodes edges settings TimeStepPositive"
    "\<not> violated nodes edges settings TotalTimePositive"
    "violated nodes edges settings TotalTimeAtLeastTimeStep"
  shows "num_lt (totalTime settings) (timeStep settings)"
  using assms by (cases "timeStep settings"; cases "totalTime settings") auto

lemma fails_5:
  assumes "violated nodes edges settings NodeValuesValid"
  shows "\<exists>e. forEach_check checkNode nodes = Some e \<and> errorPrecondition e = NodeValuesValid"
proof -
  from assms have "\<exists>node\<in>set nodes. checkNode node \<noteq> None"
    by (auto simp: checkNode_None)
  from forEach_check_violation[OF this] obtain e node where
    e: "forEach_check checkNode nodes = Some e" "checkNode node = Some e" by blast
  from e(2) have "errorPrecondition e = NodeValuesValid" by (rule checkNode_Some)
  with e(1) show ?thesis by blast
qed

lemma fails_6:
  assumes "violated nodes edges settings ConductancesValid"
  shows "forEach_check checkConductance edges = Some InvalidConductance"
proof -
  from assms have "\<exists>edge\<in>set edges. checkConductance edge \<noteq> None"
    by (auto simp: checkConductance_None)
  from forEach_check_violation[OF this] obtain e edge where
    e: "forEach_check checkConductance edges = Some e" "checkConductance edge = Some e" by blast
  from e(2) have "e = InvalidConductance" by (rule checkConductance_Some)
  with e(1) show ?thesis by simp
qed

lemma fails_7:
  assumes "violated nodes edges settings EndpointsExist"
  shows "forEach_check (checkEndpoints (nodeIndex nodes)) edges = Some UnknownNodeReference"
proof -
  from assms have "\<exists>edge\<in>set edges. checkEndpoints (nodeIndex nodes) edge \<noteq> None"
    by (auto simp: checkEndpoints_None)
  from forEach_check_violation[OF this] obtain e edge where
    e: "forEach_check (checkEndpoints (nodeIndex nodes)) edges = Some e"
       "checkEndpoints (nodeIndex nodes) edge = Some e" by blast
  from e(2) have "e = UnknownNodeReference" by (rule checkEndpoints_Some)
  with e(1) show ?thesis by simp
qed

lemma validate_first_violation:
  assumes "violated nodes edges settings p"
    and "\<forall>q. rank q < rank p \<longrightarrow> \<not> violated nodes edges settings q"
  shows "\<exists>e. validate nodes edges settings = Some e \<and> errorPrecondition e = p"
proof -
  have low: "\<And>q. rank q < rank p \<Longrightarrow> \<not> violated nodes edges settings q"
    using assms(2) by blast
  show ?thesis
  proof (cases p)
    case NodesNonEmpty
    with assms(1) show ?thesis by (simp add: validate_def)
  next
    case TimeStepPositive
    have "nodes \<noteq> []" by (rule passes_1[OF low]) (simp add: TimeStepPositive)
    with assms(1) TimeStepPositive show ?thesis by (simp add: validate_def finite_positive)
  next
    case TotalTimePositive
    have "nodes \<noteq> []" by (rule passes_1[OF low]) (simp add: TotalTimePositive)
    moreover have "\<not> (\<not> isFinite (timeStep settings) \<or> num_le (timeStep settings) (Finite 0))"
      by (rule passes_2[OF low]) (simp add: TotalTimePositive)
    ultimately show ?thesis
      using assms(1) TotalTimePositive by (simp add: validate_def finite_positive)
  next
    case TotalTimeAtLeastTimeStep
    have "nodes \<noteq> []" by (rule passes_1[OF low]) (simp add: TotalTimeAtLeastTimeStep)
    moreover have "\<not> (\<not> isFinite (timeStep settings) \<or> num_le (timeStep settings) (Finite 0))"
      by (rule passes_2[OF low]) (simp add: TotalTimeAtLeastTimeStep)
    moreover have "\<not> (\<not> isFinite (totalTime settings) \<or> num_le (totalTime settings) (Finite 0))"
      by (rule passes_3[OF low]) (simp add: TotalTimeAtLeastTimeStep)
    moreover have "num_lt (totalTime settings) (timeStep settings)"
    proof (rule fails_4)
      show "\<not> violated nodes edges settings TimeStepPositive"
        by (rule low) (simp add: TotalTimeAtLeastTimeStep)
      show "\<not> violated nodes edges settings TotalTimePositive"
        by (rule low) (simp add: TotalTimeAtLeastTimeStep)
      show "violated nodes edges settings TotalTimeAtLeastTimeStep"
        using assms(1) unfolding TotalTimeAtLeastTimeStep .
    qed
    ultimately show ?thesis
      using TotalTimeAtLeastTimeStep by (simp add: validate_def)
  next
    case NodeValuesValid
    have "nodes \<noteq> []" by (rule passes_1[OF low]) (simp add: NodeValuesValid)
    moreover have "\<not> (\<not> isFinite (timeStep settings) \<or> num_le (timeStep settings) (Finite 0))"
      by (rule passes_2[OF low]) (simp add: NodeValuesValid)
    moreover have "\<not> (\<not> isFinite (totalTime settings) \<or> num_le (totalTime settings) (Finite 0))"
      by (rule passes_3[OF low]) (simp add: NodeValuesValid)
    moreover have "\<not> num_lt (totalTime settings) (timeStep settings)"
      by (rule passes_4[OF low]) (simp add: NodeValuesValid)
    moreover obtain e where "forEach_check checkNode nodes = Some e"
        "errorPrecondition e = NodeValuesValid"
      using fails_5[of nodes edges settings] assms(1) NodeValuesValid by blast
    ultimately show ?thesis
      using NodeValuesValid by (simp add: validate_def)
  next
    case ConductancesValid
    have "nodes \<noteq> []" by (rule passes_1[OF low]) (simp add: ConductancesValid)
    moreover have "\<not> (\<not> isFinite (timeStep settings) \<or> num_le (timeStep settings) (Finite 0))"
      by (rule passes_2[OF low]) (simp add: ConductancesValid)
    moreover have "\<not> (\<not> isFinite (totalTime settings) \<or> num_le (totalTime settings) (Finite 0))"
      by (rule passes_3[OF low]) (simp add: ConductancesValid)
    moreover have "\<not> num_lt (totalTime settings) (timeStep settings)"
      by (rule passes_4[OF low]) (simp add: ConductancesValid)
    moreover have "forEach_check checkNode nodes = None"
      by (rule passes_5[OF low]) (simp add: ConductancesValid)
    moreover have "forEach_check checkConductance edges = Some InvalidConductance"
      using assms(1) ConductancesValid by (intro fails_6[of nodes edges settings]) simp
    ultimately show ?thesis
      using ConductancesValid by (simp add: validate_def)
  next
    case EndpointsExist
    have "nodes \<noteq> []" by (rule passes_1[OF low]) (simp add: EndpointsExist)
    moreover have "\<not> (\<not> isFinite (timeStep settings) \<or> num_le (timeStep settings) (Finite 0))"
      by (rule passes_2[OF low]) (simp add: EndpointsExist)
    moreover have "\<not> (\<not> isFinite (totalTime settings) \<or> num_le (totalTime settings) (Finite 0))"
      by (rule passes_3[OF low]) (simp add: EndpointsExist)
    moreover have "\<not> num_lt (totalTime settings) (timeStep settings)"
      by (rule passes_4[OF low]) (simp add: EndpointsExist)
    moreover have "forEach_check checkNode nodes = None"
      by (rule passes_5[OF low]) (simp add: EndpointsExist)
    moreover have "forEach_check checkConductance edges = None"
      by (rule passes_6[OF low]) (simp add: EndpointsExist)
    moreover have "forEach_check (checkEndpoints (nodeIndex nodes)) edges = Some UnknownNodeReference"
      using assms(1) EndpointsExist by (intro fails_7[of nodes edges settings]) simp
    ultimately show ?thesis
      using EndpointsExist by (simp add: validate_def)
  qed
qed

lemma errorPrecondition_NoNodes: "errorPrecondition e = NodesNonEmpty \<Longrightarrow> e = NoNodes"
  by (cases e) simp_all

lemma checkNode_describes:
  "node \<in> set nodes \<Longrightarrow> checkNode node = Some e \<Longrightarrow> describes nodes edges settings e"
  unfolding checkNode_def by (auto split: if_splits)

lemma checkConductance_describes:
  "edge \<in> set edges \<Longrightarrow> checkConductance edge = Some e \<Longrightarrow> describes nodes edges settings e"
  unfolding checkConductance_def by (auto split: if_splits)

lemma checkEndpoints_describes:
  "edge \<in> set edges \<Longrightarrow> checkEndpoints (nodeIndex nodes) edge = Some e \<Longrightarrow>
   describes nodes edges settings e"
  unfolding checkEndpoints_def nodeIndex_None by (auto split: if_splits)

lemma validate_describes:
  assumes "validate nodes edges settings = Some e"
  shows "describes nodes edges settings e"
proof (cases "nodes = []")
  case True
  with assms show ?thesis by (simp add: validate_def)
next
  case n: False
  show ?thesis
  proof (cases "\<not> isFinite (timeStep settings) \<or> num_le (timeStep settings) (Finite 0)")
    case True
    with n assms have "e = InvalidTimeStep" by (simp add: validate_def)
    with True show ?thesis by simp
  next
    case dt: False
    show ?thesis
    proof (cases "\<not> isFinite (totalTime settings) \<or> num_le (totalTime settings) (Finite 0)")
      case True
      with n dt assms have "e = InvalidTotalTime" by (simp add: validate_def)
      with True show ?thesis by simp
    next
      case tt: False
      show ?thesis
      proof (cases "num_lt (totalTime settings) (timeStep settings)")
        case True
        with n dt tt assms have "e = TotalTimeBelowTimeStep" by (simp add: validate_def)
        with True show ?thesis by simp
      next
        case ge: False
        have v: "(case forEach_check checkNode nodes of Some e \<Rightarrow> Some e | None \<Rightarrow>
            (case forEach_check checkConductance edges of Some e \<Rightarrow> Some e | None \<Rightarrow>
               forEach_check (checkEndpoints (nodeIndex nodes)) edges)) = Some e"
          using assms n dt tt ge by (simp add: validate_def)
        show ?thesis
        proof (cases "forEach_check checkNode nodes")
          case (Some e1)
          with v have "forEach_check checkNode nodes = Some e" by simp
          from forEach_check_SomeD[OF this] show ?thesis
            using checkNode_describes by blast
        next
          case nn: None
          show ?thesis
          proof (cases "forEach_check checkConductance edges")
            case (Some e2)
            with v nn have "forEach_check checkConductance edges = Some e" by simp
            from forEach_check_SomeD[OF this] show ?thesis
              using checkConductance_describes by blast
          next
            case None
            with v nn have "forEach_check (checkEndpoints (nodeIndex nodes)) edges = Some e" by simp
            from forEach_check_SomeD[OF this] show ?thesis
              using checkEndpoints_describes by blast
          qed
        qed
      qed
    qed
  qed
qed

section \<open>The claims\<close>

subsection \<open>C1: the explicit Euler update\<close>

text \<open>
  C1. For every input accepted by validation, the temperature at sample \<open>k + 1\<close> of
  each node \<open>i\<close> that is not fixed is its temperature at sample \<open>k\<close> plus the sum,
  over the entries \<open>(j, g)\<close> of its adjacency list, of \<open>g\<close> times the difference of
  the temperatures of \<open>j\<close> and \<open>i\<close> at sample \<open>k\<close>, divided by the heat capacity of
  \<open>i\<close> and multiplied by the size of the step. All temperatures on the right are
  those of sample \<open>k\<close> in the returned series. Every sample of a fixed node is its
  \<open>fixedTemp\<close>.
\<close>

theorem explicit_euler_step:
  assumes "validate nodes edges settings = None"
  shows "\<exists>res. simulateThermalNetwork nodes edges settings = Some (Inr res) \<and>
           length (series res) = length nodes \<and>
           (\<forall>i<length nodes. \<forall>k. Suc k < length (times_r res) \<longrightarrow> \<not> isFixed (nodes ! i) \<longrightarrow>
              temperatures (series res ! i) ! Suc k =
                temperatures (series res ! i) ! k +
                (\<Sum>(j, g)\<leftarrow>adjacency nodes edges ! i.
                    g * (temperatures (series res ! j) ! k - temperatures (series res ! i) ! k))
                  / val (heatCapacity (nodes ! i))
                  * min (val (timeStep settings))
                        (val (totalTime settings) -
                         elapsedAfter (val (timeStep settings)) (val (totalTime settings)) k)) \<and>
           (\<forall>i<length nodes. \<forall>k<length (times_r res). isFixed (nodes ! i) \<longrightarrow>
              temperatures (series res ! i) ! k = val (fixedTemp (nodes ! i)))"
proof -
  let ?dt = "val (timeStep settings)" and ?T = "val (totalTime settings)"
  let ?adj = "adjacency nodes edges"
  let ?N = "stepCount ?dt ?T"
  let ?f = "tempsAfter nodes ?adj ?dt ?T"
  let ?res = "\<lparr>times_r = map (\<lambda>j. toFixed6 (elapsedAfter ?dt ?T j)) [0..<Suc ?N],
               series = seriesOf nodes (map ?f [0..<Suc ?N])\<rparr>"
  have run: "simulateThermalNetwork nodes edges settings = Some (Inr ?res)"
    by (rule simulate_closed_form[OF assms])
  have edges: "\<forall>edge\<in>set edges. validEdge nodes edge"
    using assms by (simp add: validate_None)
  have len: "length (times_r ?res) = Suc ?N" by simp
  have temp: "\<And>i k. i < length nodes \<Longrightarrow> k < Suc ?N \<Longrightarrow>
      temperatures (series ?res ! i) ! k = ?f k ! i"
    using result_temperature[of _ nodes _ ?N ?f] by simp
  have free: "\<forall>i<length nodes. \<forall>k. Suc k < length (times_r ?res) \<longrightarrow> \<not> isFixed (nodes ! i) \<longrightarrow>
              temperatures (series ?res ! i) ! Suc k =
                temperatures (series ?res ! i) ! k +
                (\<Sum>(j, g)\<leftarrow>?adj ! i.
                    g * (temperatures (series ?res ! j) ! k - temperatures (series ?res ! i) ! k))
                  / val (heatCapacity (nodes ! i))
                  * min ?dt (?T - elapsedAfter ?dt ?T k)"
  proof (intro allI impI)
    fix i k
    assume i: "i < length nodes" and k: "Suc k < length (times_r ?res)"
      and nf: "\<not> isFixed (nodes ! i)"
    from k have k': "k < Suc ?N" "Suc k < Suc ?N" unfolding len by simp_all
    have "?adj ! i \<in> set ?adj"
      using i by (simp add: length_adjacency)
    with neighborsBelow_adjacency[OF edges]
    have below: "\<forall>nb\<in>set (?adj ! i). fst nb < length nodes"
      unfolding neighborsBelow_def by blast
    have "(\<Sum>(j, g)\<leftarrow>?adj ! i. g * (temperatures (series ?res ! j) ! k - temperatures (series ?res ! i) ! k))
        = (\<Sum>(j, g)\<leftarrow>?adj ! i. g * (?f k ! j - ?f k ! i))"
    proof (rule arg_cong[where f = sum_list], rule map_cong[OF refl])
      fix nb assume "nb \<in> set (?adj ! i)"
      with below have "fst nb < length nodes" by blast
      then show "(case nb of (j, g) \<Rightarrow> g * (temperatures (series ?res ! j) ! k - temperatures (series ?res ! i) ! k))
          = (case nb of (j, g) \<Rightarrow> g * (?f k ! j - ?f k ! i))"
        using temp[OF _ k'(1)] i by (cases nb) simp
    qed
    then show "temperatures (series ?res ! i) ! Suc k =
                temperatures (series ?res ! i) ! k +
                (\<Sum>(j, g)\<leftarrow>?adj ! i.
                    g * (temperatures (series ?res ! j) ! k - temperatures (series ?res ! i) ! k))
                  / val (heatCapacity (nodes ! i))
                  * min ?dt (?T - elapsedAfter ?dt ?T k)"
      using tempsAfter_free[OF i nf, of ?adj ?dt ?T k]
      by (simp only: temp[OF i k'(1)] temp[OF i k'(2)] stepAt_def)
  qed
  have fixed: "\<forall>i<length nodes. \<forall>k<length (times_r ?res). isFixed (nodes ! i) \<longrightarrow>
              temperatures (series ?res ! i) ! k = val (fixedTemp (nodes ! i))"
  proof (intro allI impI)
    fix i k
    assume i: "i < length nodes" and k: "k < length (times_r ?res)" and f: "isFixed (nodes ! i)"
    from k have k': "k < Suc ?N" unfolding len .
    show "temperatures (series ?res ! i) ! k = val (fixedTemp (nodes ! i))"
      by (simp only: temp[OF i k'] tempsAfter_fixed[OF i f])
  qed
  have lres: "length (series ?res) = length nodes" by (simp add: seriesOf_length)
  show ?thesis
    by (rule exI[of _ ?res], intro conjI) (rule run lres free fixed)+
qed

theorem explicit_euler_step_witness:
  "validate [exampleA, exampleB] [exampleEdge] exampleSettings = None \<and>
   (\<exists>res. simulateThermalNetwork [exampleA, exampleB] [exampleEdge] exampleSettings = Some (Inr res) \<and>
      0 < length [exampleA, exampleB] \<and> Suc 0 < length (times_r res) \<and>
      \<not> isFixed ([exampleA, exampleB] ! 0) \<and>
      temperatures (series res ! 0) ! Suc 0 =
        temperatures (series res ! 0) ! 0 +
        (\<Sum>(j, g)\<leftarrow>adjacency [exampleA, exampleB] [exampleEdge] ! 0.
            g * (temperatures (series res ! j) ! 0 - temperatures (series res ! 0) ! 0))
          / val (heatCapacity ([exampleA, exampleB] ! 0))
          * min (val (timeStep exampleSettings))
                (val (totalTime exampleSettings) -
                 elapsedAfter (val (timeStep exampleSettings)) (val (totalTime exampleSettings)) 0) \<and>
      temperatures (series res ! 0) ! Suc 0 = 92 \<and>
      isFixed ([exampleA, exampleB] ! 1) \<and>
      temperatures (series res ! 1) ! 5 = val (fixedTemp ([exampleA, exampleB] ! 1)))"
proof -
  have h: "validate [exampleA, exampleB] [exampleEdge] exampleSettings = None"
    by (rule example_valid)
  from explicit_euler_step[OF h] obtain res where
    r: "simulateThermalNetwork [exampleA, exampleB] [exampleEdge] exampleSettings = Some (Inr res)"
    and free: "\<forall>i<length [exampleA, exampleB]. \<forall>k. Suc k < length (times_r res) \<longrightarrow>
          \<not> isFixed ([exampleA, exampleB] ! i) \<longrightarrow>
          temperatures (series res ! i) ! Suc k =
            temperatures (series res ! i) ! k +
            (\<Sum>(j, g)\<leftarrow>adjacency [exampleA, exampleB] [exampleEdge] ! i.
                g * (temperatures (series res ! j) ! k - temperatures (series res ! i) ! k))
              / val (heatCapacity ([exampleA, exampleB] ! i))
              * min (val (timeStep exampleSettings))
                    (val (totalTime exampleSettings) -
                     elapsedAfter (val (timeStep exampleSettings)) (val (totalTime exampleSettings)) k)"
    and fixed: "\<forall>i<length [exampleA, exampleB]. \<forall>k<length (times_r res).
          isFixed ([exampleA, exampleB] ! i) \<longrightarrow>
          temperatures (series res ! i) ! k = val (fixedTemp ([exampleA, exampleB] ! i))"
    by blast
  have len: "length (times_r res) = 6" and t1: "temperatures (series res ! 0) ! Suc 0 = 92"
    using r unfolding example_run by auto
  have a: "0 < length [exampleA, exampleB]" "1 < length [exampleA, exampleB]" by simp_all
  have k: "Suc 0 < length (times_r res)" "5 < length (times_r res)" by (simp_all add: len)
  have nf: "\<not> isFixed ([exampleA, exampleB] ! 0)" and fx: "isFixed ([exampleA, exampleB] ! 1)"
    by (simp_all add: example_defs)
  note s1 = free[rule_format, OF a(1) k(1) nf]
  note s2 = fixed[rule_format, OF a(2) k(2) fx]
  show ?thesis
    by (intro conjI exI[of _ res]) (rule h r a(1) k(1) nf s1 t1 fx s2)+
qed

subsection \<open>C2: the sequence of sample times\<close>




subsection \<open>C3: the order of validation\<close>

text \<open>
  C3. The seven preconditions are checked in the order of the list: whenever a
  precondition \<open>p\<close> is violated and no precondition before it in the list is, the
  call fails with the error of \<open>p\<close>, whatever else is violated after it. In
  particular an input without nodes fails with the error for that, also when its
  \<open>timeStep\<close> is invalid.
\<close>

theorem first_violation_wins:
  assumes "violated nodes edges settings p"
    and "\<forall>q. rank q < rank p \<longrightarrow> \<not> violated nodes edges settings q"
  shows "\<exists>e. simulateThermalNetwork nodes edges settings = Some (Inl e) \<and>
             errorPrecondition e = p \<and> (p = NodesNonEmpty \<longrightarrow> e = NoNodes)"
proof -
  from validate_first_violation[OF assms] obtain e where
    e: "validate nodes edges settings = Some e" "errorPrecondition e = p" by blast
  have "p = NodesNonEmpty \<longrightarrow> e = NoNodes"
    using e(2) errorPrecondition_NoNodes by blast
  with simulate_invalid[OF e(1)] e(2) show ?thesis by blast
qed

theorem first_violation_wins_witness:
  "violated [] [] \<lparr>timeStep = NaN, totalTime = Finite 5\<rparr> NodesNonEmpty \<and>
   violated [] [] \<lparr>timeStep = NaN, totalTime = Finite 5\<rparr> TimeStepPositive \<and>
   \<not> (\<exists>q. rank q < rank NodesNonEmpty \<and> violated [] [] \<lparr>timeStep = NaN, totalTime = Finite 5\<rparr> q) \<and>
   simulateThermalNetwork [] [] \<lparr>timeStep = NaN, totalTime = Finite 5\<rparr> = Some (Inl NoNodes)"
proof -
  have h1: "violated [] [] \<lparr>timeStep = NaN, totalTime = Finite 5\<rparr> NodesNonEmpty"
    and h3: "violated [] [] \<lparr>timeStep = NaN, totalTime = Finite 5\<rparr> TimeStepPositive"
    by simp_all
  have h2: "\<forall>q. rank q < rank NodesNonEmpty \<longrightarrow> \<not> violated [] [] \<lparr>timeStep = NaN, totalTime = Finite 5\<rparr> q"
  proof (intro allI impI)
    fix q assume "rank q < rank NodesNonEmpty"
    then show "\<not> violated [] [] \<lparr>timeStep = NaN, totalTime = Finite 5\<rparr> q"
      by (cases q) simp_all
  qed
  from first_violation_wins[OF h1 h2] have
    "simulateThermalNetwork [] [] \<lparr>timeStep = NaN, totalTime = Finite 5\<rparr> = Some (Inl NoNodes)"
    by auto
  moreover from h2
  have "\<not> (\<exists>q. rank q < rank NodesNonEmpty \<and> violated [] [] \<lparr>timeStep = NaN, totalTime = Finite 5\<rparr> q)"
    by blast
  ultimately show ?thesis using h1 h3 by (intro conjI)
qed

subsection \<open>C4: failures of the parameter estimator\<close>




subsection \<open>C5: conservation of energy without fixed nodes\<close>



subsection \<open>C6: termination and the number of rounds\<close>




subsection \<open>C7: parallel edges\<close>



subsection \<open>C8: what the error identifies\<close>

text \<open>
  C8. For every input violating a precondition the call fails with an error that names
  the violation, and an error about a node (heat capacity, initial temperature, fixed
  temperature) carries the name of a node of the input with that violation. As
  stated, the claim also has the two errors about edges identify the edge at fault;
  these two errors are constant messages and carry nothing about the edge.
\<close>

theorem error_names_violation:
  assumes "validate nodes edges settings \<noteq> None"
  shows "\<exists>e. simulateThermalNetwork nodes edges settings = Some (Inl e) \<and>
             describes nodes edges settings e"
proof -
  from assms obtain e where e: "validate nodes edges settings = Some e" by auto
  from simulate_invalid[OF e] validate_describes[OF e] show ?thesis by blast
qed

theorem error_names_violation_witness:
  "validate [exampleA, exampleBadNode] [exampleEdge] exampleSettings \<noteq> None \<and>
   simulateThermalNetwork [exampleA, exampleBadNode] [exampleEdge] exampleSettings =
     Some (Inl (InvalidHeatCapacity ''D'')) \<and>
   describes [exampleA, exampleBadNode] [exampleEdge] exampleSettings (InvalidHeatCapacity ''D'')"
proof -
  have h: "validate [exampleA, exampleBadNode] [exampleEdge] exampleSettings \<noteq> None"
    by (simp add: eval_defs example_defs exampleBadNode_def)
  have r: "simulateThermalNetwork [exampleA, exampleBadNode] [exampleEdge] exampleSettings =
     Some (Inl (InvalidHeatCapacity ''D''))"
    by (simp add: eval_defs example_defs exampleBadNode_def)
  from error_names_violation[OF h] r
  have "describes [exampleA, exampleBadNode] [exampleEdge] exampleSettings (InvalidHeatCapacity ''D'')"
    by auto
  with h r show ?thesis by (intro conjI)
qed

text \<open>
  The same error value results whether the edge at fault is the first edge (a negative
  conductance, from \<open>a\<close> to \<open>b\<close>) or the second (a NaN conductance, from \<open>b\<close> to
  \<open>a\<close>), and likewise for the edge with an unknown endpoint.
\<close>

theorem edge_error_counterexample:
  "simulateThermalNetwork [exampleA, exampleB] [exampleNegativeEdge, exampleEdge] exampleSettings =
     Some (Inl InvalidConductance) \<and>
   simulateThermalNetwork [exampleA, exampleB] [exampleEdge, exampleNaNEdge] exampleSettings =
     Some (Inl InvalidConductance) \<and>
   simulateThermalNetwork [exampleA, exampleB] [exampleDanglingEdge, exampleEdge] exampleSettings =
     Some (Inl UnknownNodeReference) \<and>
   simulateThermalNetwork [exampleA, exampleB] [exampleEdge, exampleDanglingEdge2] exampleSettings =
     Some (Inl UnknownNodeReference)"
  by (simp add: eval_defs example_defs exampleNegativeEdge_def exampleNaNEdge_def
        exampleDanglingEdge_def exampleDanglingEdge2_def)

subsection \<open>C9: determinism\<close>



subsection \<open>C10: an edge from a node to itself\<close>

text \<open>
  C10. An edge whose source and target are the same node of the network, with a finite
  conductance that is not negative, is accepted by validation; adding it anywhere to
  the edges of a valid network leaves the whole result unchanged.
\<close>

theorem self_loop_ignored:
  assumes "validate nodes (es1 @ es2) settings = None"
    and "source e = target e" and "source e \<in> id_n ` set nodes"
    and "isFinite (conductance e)" and "num_le (Finite 0) (conductance e)"
  shows "validate nodes (es1 @ e # es2) settings = None \<and>
         simulateThermalNetwork nodes (es1 @ e # es2) settings =
         simulateThermalNetwork nodes (es1 @ es2) settings"
proof -
  have ve: "validEdge nodes e"
    by (rule validEdge_self_loop[OF assms(2-5)])
  have "\<forall>edge\<in>set (es1 @ es2). validEdge nodes edge"
    using assms(1) by (simp add: validate_None)
  with ve have "\<forall>edge\<in>set (es1 @ e # es2). validEdge nodes edge" by auto
  then have v': "validate nodes (es1 @ e # es2) settings = None"
    by (rule validate_edges_cong[OF assms(1)])
  have "simulateThermalNetwork nodes (es1 @ e # es2) settings =
        simulateThermalNetwork nodes (es1 @ es2) settings"
    by (rule simulate_cong[OF v' assms(1)]) (simp add: edgeFlow_self_loop[OF assms(2)])
  with v' show ?thesis by simp
qed

theorem self_loop_ignored_witness:
  "validate [exampleA, exampleB] ([exampleEdge] @ []) exampleSettings = None \<and>
   source exampleLoop = target exampleLoop \<and>
   source exampleLoop \<in> id_n ` set [exampleA, exampleB] \<and>
   isFinite (conductance exampleLoop) \<and> num_le (Finite 0) (conductance exampleLoop) \<and>
   validate [exampleA, exampleB] ([exampleEdge] @ exampleLoop # []) exampleSettings = None \<and>
   simulateThermalNetwork [exampleA, exampleB] ([exampleEdge] @ exampleLoop # []) exampleSettings =
   simulateThermalNetwork [exampleA, exampleB] ([exampleEdge] @ []) exampleSettings"
proof -
  have h1: "validate [exampleA, exampleB] ([exampleEdge] @ []) exampleSettings = None"
    by (simp add: example_valid)
  have h2: "source exampleLoop = target exampleLoop"
    and h3: "source exampleLoop \<in> id_n ` set [exampleA, exampleB]"
    and h4: "isFinite (conductance exampleLoop)"
    and h5: "num_le (Finite 0) (conductance exampleLoop)"
    by (simp_all add: exampleLoop_def exampleA_def exampleB_def)
  from self_loop_ignored[OF h1 h2 h3 h4 h5] h1 h2 h3 h4 h5 show ?thesis
    by (intro conjI) simp_all
qed

end
